theory Spec2Isabelle
  imports Main
begin

section \<open>Runtime-monitoring data model (types/runtime-monitoring.ts)\<close>

text \<open>
  A JavaScript string is modelled as a \<^typ>\<open>string\<close>, one \<^typ>\<open>char\<close> per code unit.
  An optional field is an \<^typ>\<open>'a option\<close>.
\<close>

datatype RuntimeErrorType =
  ConsoleError | ConsoleWarning | Network404 | Network500 | Exception | NetworkOther

text \<open>The string each member of the union type is at run time.\<close>

fun type_name :: "RuntimeErrorType \<Rightarrow> string" where
  "type_name ConsoleError = ''console-error''"
| "type_name ConsoleWarning = ''console-warning''"
| "type_name Network404 = ''network-404''"
| "type_name Network500 = ''network-500''"
| "type_name Exception = ''exception''"
| "type_name NetworkOther = ''network-other''"

datatype RuntimeErrorSeverity = Critical | Error | Warning | Info

text \<open>
  The numbers \<open>parseInt\<close> gives on digits: a double that holds a natural number, or
  \<open>Infinity\<close>.
\<close>

datatype js_number = Number nat | Infinity

record source_location =
  file' :: string
  line :: "js_number option"
  column :: "js_number option"

record RuntimeError =
  id' :: string
  type' :: RuntimeErrorType
  severity :: RuntimeErrorSeverity
  message :: string
  stack :: "string option"
  url :: "string option"
  statusCode :: "nat option"
  timestamp :: nat
  source :: "source_location option"

record summary_counts =
  totalErrors :: nat
  consoleErrors :: nat
  networkErrors :: nat
  exceptions :: nat

record RuntimeMonitorResult =
  success :: bool
  sandboxId :: string
  hasErrors :: bool
  errors :: "RuntimeError list"
  warnings :: "RuntimeError list"
  summary :: summary_counts
  monitorDuration :: int
  monitoringError :: "string option"

record RuntimeMonitorConfig =
  cfg_sandboxUrl :: string
  cfg_sandboxId :: string
  cfg_timeout :: "nat option"
  cfg_errorTypes :: "string list option"

section \<open>Source-location extraction (parseErrorSource)\<close>

subsection \<open>Regular expressions as the route uses them\<close>

text \<open>
  The two patterns of \<open>parseErrorSource\<close> are sequences of three kinds of atom: a literal
  character, an optional literal character (\<open>x?\<close>) and a greedy repetition \<open>[class]+\<close>.
  \<open>match_here\<close> matches a sequence at the start of a text the way a backtracking engine
  does: \<open>x?\<close> first tries to take the character, \<open>[class]+\<close> first takes the longest run
  and gives characters back one at a time while the rest fails. Its result is the piece of
  text each atom consumed. \<open>js_match\<close> is \<open>String.prototype.match\<close> without the \<open>g\<close> flag:
  the match at the leftmost start position.
\<close>

datatype atom = Lit char | Opt char | Many1 "char \<Rightarrow> bool"

fun longest_first :: "(nat \<Rightarrow> 'a option) \<Rightarrow> nat \<Rightarrow> 'a option" where
  "longest_first f 0 = None"
| "longest_first f (Suc n) =
     (case f (Suc n) of Some r \<Rightarrow> Some r | None \<Rightarrow> longest_first f n)"

primrec match_here :: "atom list \<Rightarrow> string \<Rightarrow> string list option" where
  "match_here [] = (\<lambda>s. Some [])"
| "match_here (a # as) = (\<lambda>s.
     case a of
       Lit c \<Rightarrow>
         (case s of
            [] \<Rightarrow> None
          | x # xs \<Rightarrow> if x = c then map_option ((#) [c]) (match_here as xs) else None)
     | Opt c \<Rightarrow>
         (case s of
            [] \<Rightarrow> map_option ((#) []) (match_here as s)
          | x # xs \<Rightarrow>
              if x = c then
                (case match_here as xs of
                   Some ps \<Rightarrow> Some ([c] # ps)
                 | None \<Rightarrow> map_option ((#) []) (match_here as s))
              else map_option ((#) []) (match_here as s))
     | Many1 cls \<Rightarrow>
         longest_first
           (\<lambda>n. map_option ((#) (take n s)) (match_here as (drop n s)))
           (length (takeWhile cls s)))"

fun js_match :: "atom list \<Rightarrow> string \<Rightarrow> string list option" where
  "js_match pat [] = match_here pat []"
| "js_match pat (x # xs) =
     (case match_here pat (x # xs) of
        Some ps \<Rightarrow> Some ps
      | None \<Rightarrow> js_match pat xs)"

text \<open>The text of a capture group that spans the atoms \<open>i\<close> up to \<open>j\<close> (exclusive).\<close>

definition capture :: "string list \<Rightarrow> nat \<Rightarrow> nat \<Rightarrow> string" where
  "capture ps i j = concat (take (j - i) (drop i ps))"

text \<open>
  \<open>\d\<close> is \<open>[0-9]\<close>; \<open>\s\<close> is the white space of ECMAScript, of which tab, line feed,
  vertical tab, form feed, carriage return, space and no-break space are code units
  below 256.
\<close>

definition is_digit :: "char \<Rightarrow> bool" where
  "is_digit c = (c \<in> set ''0123456789'')"

definition is_space :: "char \<Rightarrow> bool" where
  "is_space c = (c \<in> set [CHR 0x09, CHR 0x0A, CHR 0x0B, CHR 0x0C, CHR 0x0D, CHR 0x20, CHR 0xA0])"

text \<open>The pattern \<^verbatim>\<open>/\(([^)]+):(\d+):(\d+)\)/\<close>; its groups are the atoms 1, 3 and 5.\<close>

definition paren_pattern :: "atom list" where
  "paren_pattern =
     [Lit CHR ''('', Many1 (\<lambda>c. c \<noteq> CHR '')''), Lit CHR '':'', Many1 is_digit,
      Lit CHR '':'', Many1 is_digit, Lit CHR '')'']"

text \<open>The pattern \<^verbatim>\<open>/([^\s]+\.jsx?):(\d+)/\<close>; group 1 spans the atoms 0 to 4, group 2 is atom 6.\<close>

definition simple_pattern :: "atom list" where
  "simple_pattern =
     [Many1 (\<lambda>c. \<not> is_space c), Lit CHR ''.'', Lit CHR ''j'', Lit CHR ''s'', Opt CHR ''x'',
      Lit CHR '':'', Many1 is_digit]"

text \<open>
  \<open>parseInt\<close> on a string of decimal digits is the double nearest to the value of the
  digits. \<open>to_double\<close> rounds a natural number to 53 significant bits, a tie going to the
  even significand, and gives \<open>Infinity\<close> when the rounded value reaches \<open>2^1024\<close>; below
  \<open>2^53\<close> it changes nothing. (This is the rounding of the engine the route runs on;
  ECMAScript lets an engine ignore the digits after the twentieth significant one.)
\<close>

function bit_length :: "nat \<Rightarrow> nat" where
  "bit_length n = (if n = 0 then 0 else Suc (bit_length (n div 2)))"
  by pat_completeness auto
termination
  by (relation "measure id") auto

declare bit_length.simps [simp del]

definition to_double :: "nat \<Rightarrow> js_number" where
  "to_double n =
     (let e = bit_length n - 53;
          q = n div 2 ^ e;
          r = n mod 2 ^ e;
          m = (if 2 * r > 2 ^ e \<or> (2 * r = 2 ^ e \<and> odd q) then q + 1 else q) * 2 ^ e
      in if bit_length m > 1024 then Infinity else Number m)"

definition decimal_value :: "string \<Rightarrow> nat" where
  "decimal_value ds = foldl (\<lambda>n c. 10 * n + (of_char c - 48)) 0 ds"

definition parseInt :: "string \<Rightarrow> js_number" where
  "parseInt ds = to_double (decimal_value ds)"

definition parseErrorSource :: "string \<Rightarrow> source_location option" where
  "parseErrorSource errorText =
     (case js_match paren_pattern errorText of
        Some m \<Rightarrow>
          Some \<lparr>file' = capture m 1 2,
                line = Some (parseInt (capture m 3 4)),
                column = Some (parseInt (capture m 5 6))\<rparr>
      | None \<Rightarrow>
          (case js_match simple_pattern errorText of
             Some m \<Rightarrow>
               Some \<lparr>file' = capture m 0 5,
                     line = Some (parseInt (capture m 6 7)),
                     column = None\<rparr>
           | None \<Rightarrow> None))"

section \<open>The Monitor (monitor-runtime route)\<close>

subsection \<open>Signals of the page\<close>

text \<open>
  What the four listeners receive: \<open>Console t text\<close> is a console message of level \<open>t\<close>,
  \<open>PageError m s\<close> an uncaught exception with message \<open>m\<close> and stack \<open>s\<close>,
  \<open>Response status u\<close> an HTTP response, \<open>RequestFailed u f\<close> a failed request with the
  failure's error text. A signal also carries what \<open>nanoid()\<close> and \<open>Date.now()\<close> give
  in its callback.
\<close>

datatype page_event =
    Console string string
  | PageError string "string option"
  | Response nat string
  | RequestFailed string "string option"

record signal =
  event :: page_event
  nanoid :: string
  now :: nat

type_synonym collections = "RuntimeError list \<times> RuntimeError list"

definition shouldCapture :: "string list option \<Rightarrow> string \<Rightarrow> bool" where
  "shouldCapture errorTypes t =
     (case errorTypes of
        None \<Rightarrow> True
      | Some ts \<Rightarrow> if length ts = 0 then True else t \<in> set ts)"

text \<open>\<open>a || b\<close> on an optional string: an absent or empty \<open>a\<close> gives \<open>b\<close>.\<close>

definition js_or :: "string option \<Rightarrow> string \<Rightarrow> string" where
  "js_or a b = (case a of None \<Rightarrow> b | Some s \<Rightarrow> if s = [] then b else s)"

text \<open>A number in a template literal: the decimal digits of a status code.\<close>

definition digit_char :: "nat \<Rightarrow> char" where
  "digit_char d = char_of (48 + d)"

function show_nat :: "nat \<Rightarrow> string" where
  "show_nat n =
     (if n < 10 then [digit_char n] else show_nat (n div 10) @ [digit_char (n mod 10)])"
  by pat_completeness auto
termination
  by (relation "measure id") auto

declare show_nat.simps [simp del]

subsection \<open>setupErrorListeners\<close>

text \<open>
  The two arrays \<open>errors\<close> and \<open>warnings\<close> of a session are the pair the callbacks
  update. \<open>listener\<close> is the callback that answers one signal: the \<open>console\<close>,
  \<open>pageerror\<close>, \<open>response\<close> and \<open>requestfailed\<close> handlers in turn.
\<close>

fun listener :: "string list option \<Rightarrow> signal \<Rightarrow> collections \<Rightarrow> collections" where
  "listener errorTypes sg (errs, warns) =
     (case event sg of
        Console t text \<Rightarrow>
          if t = ''error'' \<and> shouldCapture errorTypes ''console-error'' then
            (errs @ [\<lparr>id' = nanoid sg, type' = ConsoleError, severity = Error,
                         message = text, stack = None, url = None, statusCode = None,
                         timestamp = now sg, source = parseErrorSource text\<rparr>],
             warns)
          else if t = ''warning'' \<and> shouldCapture errorTypes ''console-warning'' then
            (errs,
             warns @ [\<lparr>id' = nanoid sg, type' = ConsoleWarning, severity = Warning,
                           message = text, stack = None, url = None, statusCode = None,
                           timestamp = now sg, source = None\<rparr>])
          else (errs, warns)
      | PageError msg stk \<Rightarrow>
          if shouldCapture errorTypes ''exception'' then
            (errs @ [\<lparr>id' = nanoid sg, type' = Exception, severity = Critical,
                         message = msg, stack = stk, url = None, statusCode = None,
                         timestamp = now sg, source = parseErrorSource (js_or stk msg)\<rparr>],
             warns)
          else (errs, warns)
      | Response status u \<Rightarrow>
          if status = 404 \<and> shouldCapture errorTypes ''network-404'' then
            (errs @ [\<lparr>id' = nanoid sg, type' = Network404, severity = Error,
                         message = ''404 Not Found: '' @ u, stack = None, url = Some u,
                         statusCode = Some 404, timestamp = now sg, source = None\<rparr>],
             warns)
          else if status \<ge> 500 \<and> shouldCapture errorTypes ''network-500'' then
            (errs @ [\<lparr>id' = nanoid sg, type' = Network500, severity = Critical,
                         message = ''HTTP '' @ show_nat status @ '': '' @ u, stack = None,
                         url = Some u, statusCode = Some status, timestamp = now sg,
                         source = None\<rparr>],
             warns)
          else if status \<ge> 400 \<and> status < 500 \<and> status \<noteq> 404 then
            (errs,
             warns @ [\<lparr>id' = nanoid sg, type' = NetworkOther, severity = Warning,
                           message = ''HTTP '' @ show_nat status @ '': '' @ u, stack = None,
                           url = Some u, statusCode = Some status, timestamp = now sg,
                           source = None\<rparr>])
          else (errs, warns)
      | RequestFailed u errorText \<Rightarrow>
          (errs,
           warns @ [\<lparr>id' = nanoid sg, type' = NetworkOther, severity = Warning,
                         message = ''Request failed: '' @ js_or errorText ''Unknown error''
                                     @ '' - '' @ u,
                         stack = None, url = Some u, statusCode = None, timestamp = now sg,
                         source = None\<rparr>]))"

text \<open>The callbacks run in the order the page dispatches its signals.\<close>

definition dispatch :: "string list option \<Rightarrow> signal list \<Rightarrow> collections \<Rightarrow> collections" where
  "dispatch errorTypes sgs c = fold (listener errorTypes) sgs c"

subsection \<open>monitorSandbox\<close>

text \<open>
  What the browser does during one session is the input \<open>browser_run\<close>: whether
  launching the browser, opening the context or opening the page throws; the signals
  dispatched while the navigation is pending and whether \<open>page.goto\<close> throws (with the
  message of the error); the signals dispatched during the settle wait and the content
  check, whether the wait throws (the session logs that error and goes on, so nothing
  below reads it), and what the content check evaluates to (\<open>None\<close> when it throws); the
  signals dispatched while the browser closes and whether \<open>browser.close()\<close> throws; the
  clock at the start and at the end, and the identifier and the clock for the one entry the
  session writes itself.

  An error thrown outside the inner \<open>try\<close> blocks reaches the outer \<open>catch\<close>, which closes
  the browser when there is one, whatever that close does, and throws the error again. So
  when the close before a \<open>return\<close> throws, the browser is closed a second time and the
  session returns no result.

  The result is the sequence of browser actions the session performed, and what it
  returned: \<open>Inr\<close> a result, or \<open>Inl\<close> the message of the error it threw.
\<close>

record browser_run =
  launch_fault :: "string option"
  context_fault :: "string option"
  page_fault :: "string option"
  load_signals :: "signal list"
  goto_fault :: "string option"
  wait_fault :: "string option"
  settle_signals :: "signal list"
  root_has_children :: "bool option"
  close_signals :: "signal list"
  close_fault :: "string option"
  start_time :: nat
  end_time :: nat
  fresh_id :: string
  fresh_time :: nat

datatype action =
  Launch | NewContext | NewPage | SetupErrorListeners | Goto | WaitForTimeout | Evaluate | Close

record session_outcome =
  actions :: "action list"
  returned :: "string + RuntimeMonitorResult"

definition startsWith :: "string \<Rightarrow> string \<Rightarrow> bool" where
  "startsWith s p = (take (length p) s = p)"

definition endsWith :: "string \<Rightarrow> string \<Rightarrow> bool" where
  "endsWith s p = (length p \<le> length s \<and> drop (length s - length p) s = p)"

text \<open>The result returned from the \<open>catch\<close> of the navigation.\<close>

definition navigation_failure_result ::
  "RuntimeMonitorConfig \<Rightarrow> browser_run \<Rightarrow> string \<Rightarrow> RuntimeMonitorResult" where
  "navigation_failure_result config run navError =
     \<lparr>success = False,
      sandboxId = cfg_sandboxId config,
      hasErrors = True,
      errors = [\<lparr>id' = fresh_id run, type' = NetworkOther, severity = Critical,
                  message = ''Failed to navigate to sandbox: '' @ navError, stack = None,
                  url = Some (cfg_sandboxUrl config), statusCode = None,
                  timestamp = fresh_time run, source = None\<rparr>],
      warnings = [],
      summary = \<lparr>totalErrors = 1, consoleErrors = 0, networkErrors = 1, exceptions = 0\<rparr>,
      monitorDuration = int (end_time run) - int (start_time run),
      monitoringError = None\<rparr>"

text \<open>The warning pushed when the content check is false or throws.\<close>

definition empty_root_warning :: "browser_run \<Rightarrow> RuntimeError" where
  "empty_root_warning run =
     \<lparr>id' = fresh_id run, type' = ConsoleWarning, severity = Warning,
      message = ''React root is empty - page may not have rendered'', stack = None,
      url = None, statusCode = None, timestamp = fresh_time run, source = None\<rparr>"

text \<open>The two arrays when the browser has closed after a navigation that succeeded.\<close>

definition collected :: "RuntimeMonitorConfig \<Rightarrow> browser_run \<Rightarrow> collections" where
  "collected config run =
     (let c1 = dispatch (cfg_errorTypes config) (load_signals run) ([], []);
          c2 = dispatch (cfg_errorTypes config) (settle_signals run) c1;
          hasContent = (case root_has_children run of None \<Rightarrow> False | Some b \<Rightarrow> b);
          c3 = (if \<not> hasContent then (fst c2, snd c2 @ [empty_root_warning run]) else c2)
      in dispatch (cfg_errorTypes config) (close_signals run) c3)"

text \<open>The classification and the result of the last \<open>return\<close>.\<close>

definition success_result ::
  "RuntimeMonitorConfig \<Rightarrow> browser_run \<Rightarrow> collections \<Rightarrow> RuntimeMonitorResult" where
  "success_result config run c =
     (let errs = fst c; warns = snd c;
          criticalErrors = filter (\<lambda>e. severity e = Critical \<or> severity e = Error) errs;
          counts =
            \<lparr>totalErrors = length errs + length warns,
             consoleErrors =
               length (filter (\<lambda>e. startsWith (type_name (type' e)) ''console-'') errs),
             networkErrors =
               length (filter (\<lambda>e. startsWith (type_name (type' e)) ''network-'') errs),
             exceptions = length (filter (\<lambda>e. type_name (type' e) = ''exception'') errs)\<rparr>
      in \<lparr>success = True,
          sandboxId = cfg_sandboxId config,
          hasErrors = (length criticalErrors > 0),
          errors = errs,
          warnings = warns,
          summary = counts,
          monitorDuration = int (end_time run) - int (start_time run),
          monitoringError = None\<rparr>)"

definition monitorSandbox :: "RuntimeMonitorConfig \<Rightarrow> browser_run \<Rightarrow> session_outcome" where
  "monitorSandbox config run =
     (case launch_fault run of
        Some e \<Rightarrow> \<lparr>actions = [Launch], returned = Inl e\<rparr>
      | None \<Rightarrow>
     (case context_fault run of
        Some e \<Rightarrow> \<lparr>actions = [Launch, NewContext, Close], returned = Inl e\<rparr>
      | None \<Rightarrow>
     (case page_fault run of
        Some e \<Rightarrow> \<lparr>actions = [Launch, NewContext, NewPage, Close], returned = Inl e\<rparr>
      | None \<Rightarrow>
     (case goto_fault run of
        Some navError \<Rightarrow>
          (case close_fault run of
             Some e \<Rightarrow>
               \<lparr>actions = [Launch, NewContext, NewPage, SetupErrorListeners, Goto, Close,
                           Close],
                returned = Inl e\<rparr>
           | None \<Rightarrow>
               \<lparr>actions = [Launch, NewContext, NewPage, SetupErrorListeners, Goto, Close],
                returned = Inr (navigation_failure_result config run navError)\<rparr>)
      | None \<Rightarrow>
          (case close_fault run of
             Some e \<Rightarrow>
               \<lparr>actions = [Launch, NewContext, NewPage, SetupErrorListeners, Goto,
                           WaitForTimeout, Evaluate, Close, Close],
                returned = Inl e\<rparr>
           | None \<Rightarrow>
               \<lparr>actions = [Launch, NewContext, NewPage, SetupErrorListeners, Goto,
                           WaitForTimeout, Evaluate, Close],
                returned = Inr (success_result config run (collected config run))\<rparr>)))))"

section \<open>The Fixer (lib/runtime-error-fixer.ts)\<close>

text \<open>
  A JavaScript \<open>Set\<close> of strings keeps its members in insertion order: it is a list
  without repetition, and \<open>set_add\<close> is \<open>Set.prototype.add\<close>.
\<close>

definition set_add :: "string \<Rightarrow> string list \<Rightarrow> string list" where
  "set_add x xs = (if x \<in> set xs then xs else xs @ [x])"

definition new_Set :: "string list \<Rightarrow> string list" where
  "new_Set xs = fold set_add xs []"

text \<open>The normalization of \<open>error.source.file\<close> in the \<open>forEach\<close> of \<open>fixRuntimeErrors\<close>.\<close>

definition normalizePath :: "string \<Rightarrow> string" where
  "normalizePath path0 =
     (let path1 = (if startsWith path0 ''/'' then drop 1 path0 else path0);
          path2 = (if startsWith path1 ''./'' then drop 2 path1 else path1)
      in if \<not> startsWith path2 ''src/'' \<and> (endsWith path2 ''.jsx'' \<or> endsWith path2 ''.tsx'')
         then ''src/'' @ path2
         else path2)"

text \<open>
  One round of the \<open>forEach\<close>: an error with a non-empty \<open>source.file\<close> adds its
  normalized path. (The file name the round then looks for in the message is not used.)
\<close>

definition add_error_file :: "RuntimeError \<Rightarrow> string list \<Rightarrow> string list" where
  "add_error_file e relevant =
     (case source e of
        None \<Rightarrow> relevant
      | Some loc \<Rightarrow>
          if file' loc = [] then relevant else set_add (normalizePath (file' loc)) relevant)"

text \<open>The set \<open>relevantFiles\<close> when the files are about to be read.\<close>

definition relevantFiles :: "RuntimeError list \<Rightarrow> string list \<Rightarrow> string list" where
  "relevantFiles errs focusFiles =
     fold add_error_file errs
       (set_add ''src/main.jsx''
         (set_add ''src/index.css''
           (set_add ''index.html''
             (set_add ''package.json'' (new_Set focusFiles)))))"

section \<open>Notions used in the statements\<close>

text \<open>
  The pairs of type and severity of the entries a session appends to \<open>errors\<close>, and of
  those it appends to \<open>warnings\<close>: the invariant of the two arrays.
\<close>

definition error_entry :: "RuntimeError \<Rightarrow> bool" where
  "error_entry e =
     ((type' e, severity e) \<in>
        {(ConsoleError, Error), (Exception, Critical), (Network404, Error),
         (Network500, Critical)})"

definition warning_entry :: "RuntimeError \<Rightarrow> bool" where
  "warning_entry e =
     ((type' e, severity e) \<in> {(ConsoleWarning, Warning), (NetworkOther, Warning)})"

definition segregated :: "collections \<Rightarrow> bool" where
  "segregated c = (list_all error_entry (fst c) \<and> list_all warning_entry (snd c))"

text \<open>The severity table of the specification's data model, by type.\<close>

fun spec_severity :: "RuntimeErrorType \<Rightarrow> RuntimeErrorSeverity" where
  "spec_severity ConsoleError = Error"
| "spec_severity Exception = Critical"
| "spec_severity Network404 = Error"
| "spec_severity Network500 = Critical"
| "spec_severity NetworkOther = Warning"
| "spec_severity ConsoleWarning = Warning"

text \<open>The pieces of text an atom accepts.\<close>

fun fits :: "atom \<Rightarrow> string \<Rightarrow> bool" where
  "fits (Lit c) p = (p = [c])"
| "fits (Opt c) p = (p = [c] \<or> p = [])"
| "fits (Many1 cls) p = (p \<noteq> [] \<and> list_all cls p)"

text \<open>
  The two shapes of a location in a text, as the specification words them:
  \<open>(file:line:column)\<close> in parentheses, where the file is any non-empty text without a
  closing parenthesis, and \<open>file.ext:line\<close>, where the file is non-empty text without
  white space followed by \<open>.js\<close> or \<open>.jsx\<close>. Line and column are non-empty digit strings.
\<close>

definition digits :: "string \<Rightarrow> bool" where
  "digits ds = (ds \<noteq> [] \<and> list_all is_digit ds)"

definition paren_shape :: "string \<Rightarrow> string \<Rightarrow> string \<Rightarrow> string \<Rightarrow> bool" where
  "paren_shape text f l c =
     ((\<exists>pre post. text = pre @ ''('' @ f @ '':'' @ l @ '':'' @ c @ '')'' @ post)
      \<and> f \<noteq> [] \<and> CHR '')'' \<notin> set f \<and> digits l \<and> digits c)"

definition simple_shape :: "string \<Rightarrow> string \<Rightarrow> string \<Rightarrow> bool" where
  "simple_shape text f l =
     ((\<exists>pre post. text = pre @ f @ '':'' @ l @ post)
      \<and> (\<exists>stem. stem \<noteq> [] \<and> list_all (\<lambda>c. \<not> is_space c) stem
            \<and> (f = stem @ ''.js'' \<or> f = stem @ ''.jsx''))
      \<and> digits l)"

section \<open>Sessions used as examples\<close>

definition example_config :: RuntimeMonitorConfig where
  "example_config =
     \<lparr>cfg_sandboxUrl = ''http://x/never-resolves'', cfg_sandboxId = ''s1'',
      cfg_timeout = Some 500, cfg_errorTypes = None\<rparr>"

definition unreachable_run :: browser_run where
  "unreachable_run =
     \<lparr>launch_fault = None, context_fault = None, page_fault = None,
      load_signals =
        [\<lparr>event = RequestFailed ''http://x/never-resolves'' (Some ''net::ERR_TIMED_OUT''),
          nanoid = ''r1'', now = 480\<rparr>],
      goto_fault = Some ''Timeout 500ms exceeded'', wait_fault = None, settle_signals = [],
      root_has_children = None, close_signals = [], close_fault = None, start_time = 0,
      end_time = 510, fresh_id = ''n0'', fresh_time = 505\<rparr>"

text \<open>The same session, but the browser fails to close.\<close>

definition unreachable_close_fails_run :: browser_run where
  "unreachable_close_fails_run =
     unreachable_run\<lparr>close_fault := Some ''Target page, context or browser has been closed''\<rparr>"

definition loaded_run :: browser_run where
  "loaded_run =
     \<lparr>launch_fault = None, context_fault = None, page_fault = None,
      load_signals =
        [\<lparr>event = Response 404 ''http://x/missing.js'', nanoid = ''a1'', now = 20\<rparr>,
         \<lparr>event = Console ''error'' ''x is not defined (App.jsx:42:15)'', nanoid = ''a2'',
          now = 30\<rparr>],
      goto_fault = None, wait_fault = None,
      settle_signals =
        [\<lparr>event = Console ''warning'' ''deprecated'', nanoid = ''a3'', now = 40\<rparr>,
         \<lparr>event = PageError ''boom'' None, nanoid = ''a4'', now = 50\<rparr>,
         \<lparr>event = Response 503 ''http://x/api'', nanoid = ''a5'', now = 60\<rparr>],
      root_has_children = Some False,
      close_signals =
        [\<lparr>event = RequestFailed ''http://x/poll'' None, nanoid = ''a6'', now = 70\<rparr>],
      close_fault = None, start_time = 0, end_time = 80, fresh_id = ''a7'', fresh_time = 65\<rparr>"

definition warnings_only_run :: browser_run where
  "warnings_only_run =
     \<lparr>launch_fault = None, context_fault = None, page_fault = None,
      load_signals =
        [\<lparr>event = Console ''warning'' ''deprecated'', nanoid = ''w1'', now = 10\<rparr>,
         \<lparr>event = Response 403 ''http://x/private'', nanoid = ''w2'', now = 20\<rparr>],
      goto_fault = None, wait_fault = None, settle_signals = [],
      root_has_children = Some True, close_signals = [], close_fault = None,
      start_time = 0, end_time = 30, fresh_id = ''w3'', fresh_time = 25\<rparr>"

text \<open>What \<open>monitorSandbox\<close> returns in the three example sessions.\<close>

definition loaded_result :: RuntimeMonitorResult where
  "loaded_result = success_result example_config loaded_run (collected example_config loaded_run)"

definition warnings_only_result :: RuntimeMonitorResult where
  "warnings_only_result =
     success_result example_config warnings_only_run (collected example_config warnings_only_run)"

definition unreachable_result :: RuntimeMonitorResult where
  "unreachable_result =
     navigation_failure_result example_config unreachable_run ''Timeout 500ms exceeded''"

text \<open>A configuration whose allow-list names one type, and two signals of another type.\<close>

definition console_only :: "string list option" where
  "console_only = Some [''console-error'']"

definition forbidden_response :: signal where
  "forbidden_response = \<lparr>event = Response 403 ''http://x/private'', nanoid = ''f1'', now = 10\<rparr>"

definition failed_request :: signal where
  "failed_request =
     \<lparr>event = RequestFailed ''http://x/poll'' (Some ''net::ERR_ABORTED''), nanoid = ''f2'',
      now = 20\<rparr>"

definition not_found_response :: signal where
  "not_found_response = \<lparr>event = Response 404 ''http://x/missing.js'', nanoid = ''f3'', now = 30\<rparr>"

definition server_error_response :: signal where
  "server_error_response = \<lparr>event = Response 503 ''http://x/api'', nanoid = ''f4'', now = 40\<rparr>"

definition console_warning :: signal where
  "console_warning = \<lparr>event = Console ''warning'' ''deprecated'', nanoid = ''f5'', now = 50\<rparr>"

definition uncaught_exception :: signal where
  "uncaught_exception = \<lparr>event = PageError ''boom'' None, nanoid = ''f6'', now = 60\<rparr>"

section \<open>Properties of the source-location extraction\<close>

subsection \<open>The matcher finds exactly the texts its atoms accept\<close>

lemma longest_first_Some:
  "longest_first f n = Some r \<Longrightarrow> \<exists>k. 0 < k \<and> k \<le> n \<and> f k = Some r"
proof (induction n)
  case 0
  then show ?case by simp
next
  case (Suc n)
  show ?case
  proof (cases "f (Suc n)")
    case None
    with Suc obtain k where "0 < k" "k \<le> n" "f k = Some r"
      by auto
    then show ?thesis by (intro exI [of _ k]) simp
  next
    case (Some a)
    with Suc.prems show ?thesis by (intro exI [of _ "Suc n"]) simp
  qed
qed

lemma longest_first_None:
  "longest_first f n = None \<longleftrightarrow> (\<forall>k. 0 < k \<and> k \<le> n \<longrightarrow> f k = None)"
proof (induction n)
  case 0
  then show ?case by simp
next
  case (Suc n)
  show ?case
  proof (cases "f (Suc n)")
    case None
    with Suc show ?thesis by (auto simp: le_Suc_eq)
  next
    case (Some a)
    then show ?thesis by auto
  qed
qed

lemma take_within_takeWhile:
  assumes "k \<le> length (takeWhile P s)"
  shows "list_all P (take k s)"
proof -
  have "take k s = take k (takeWhile P s @ dropWhile P s)"
    by simp
  also have "\<dots> = take k (takeWhile P s)"
    using assms by (simp del: takeWhile_dropWhile_id)
  finally have "set (take k s) \<subseteq> set (takeWhile P s)"
    by (simp add: set_take_subset)
  then show ?thesis
    by (auto simp: list_all_iff dest: set_takeWhileD)
qed

lemma match_here_sound:
  "match_here pat s = Some ps \<Longrightarrow> list_all2 fits pat ps \<and> (\<exists>rest. s = concat ps @ rest)"
proof (induction pat arbitrary: s ps)
  case Nil
  then show ?case by simp
next
  case (Cons a pat)
  show ?case
  proof (cases a)
    case (Lit c)
    with Cons.prems obtain xs ps' where s: "s = c # xs" and ps: "ps = [c] # ps'"
      and m: "match_here pat xs = Some ps'"
      by (auto split: list.splits if_splits)
    from Cons.IH [OF m] show ?thesis
      by (auto simp: Lit s ps)
  next
    case (Opt c)
    from Cons.prems consider
        (taken) xs ps' where "s = c # xs" "ps = [c] # ps'" "match_here pat xs = Some ps'"
      | (skipped) ps' where "ps = [] # ps'" "match_here pat s = Some ps'"
      unfolding Opt by (auto split: list.splits if_splits option.splits)
    then show ?thesis
    proof cases
      case taken
      from Cons.IH [OF taken(3)] show ?thesis
        by (auto simp: Opt taken)
    next
      case skipped
      from Cons.IH [OF skipped(2)] show ?thesis
        by (auto simp: Opt skipped)
    qed
  next
    case (Many1 cls)
    with Cons.prems obtain k where k: "0 < k" "k \<le> length (takeWhile cls s)"
      and f: "map_option ((#) (take k s)) (match_here pat (drop k s)) = Some ps"
      by (auto dest: longest_first_Some)
    then obtain ps' where ps: "ps = take k s # ps'" and m: "match_here pat (drop k s) = Some ps'"
      by auto
    from k have "k \<le> length s"
      using length_takeWhile_le [of cls s] by linarith
    with k have ne: "take k s \<noteq> []"
      by auto
    from Cons.IH [OF m] obtain rest where fits: "list_all2 fits pat ps'"
      and rest: "drop k s = concat ps' @ rest"
      by auto
    have "s = take k s @ drop k s"
      by simp
    with rest have "s = concat ps @ rest"
      unfolding ps by (metis append.assoc concat.simps(2))
    then have decomp: "\<exists>rest. s = concat ps @ rest" ..
    have "list_all2 fits (a # pat) ps"
      using fits ne take_within_takeWhile [OF k(2)] by (simp add: Many1 ps)
    with decomp show ?thesis by (intro conjI)
  qed
qed

lemma match_here_complete:
  "list_all2 fits pat ps \<Longrightarrow> match_here pat (concat ps @ rest) \<noteq> None"
proof (induction pat arbitrary: ps)
  case Nil
  then show ?case by simp
next
  case (Cons a pat)
  then obtain p ps' where ps: "ps = p # ps'" and p: "fits a p" and rest: "list_all2 fits pat ps'"
    by (auto simp: list_all2_Cons1)
  note IH = Cons.IH [OF rest]
  show ?case
  proof (cases a)
    case (Lit c)
    with p IH show ?thesis
      by (auto simp: ps)
  next
    case (Opt c)
    with p IH show ?thesis
      by (auto simp: ps split: list.splits option.splits)
  next
    case (Many1 cls)
    with p have ne: "p \<noteq> []" and cls: "list_all cls p"
      by auto
    let ?s = "concat ps @ rest"
    have "takeWhile cls ?s = p @ takeWhile cls (concat ps' @ rest)"
      using cls by (simp add: ps list_all_iff)
    then have len: "length p \<le> length (takeWhile cls ?s)"
      by simp
    have "drop (length p) ?s = concat ps' @ rest"
      by (simp add: ps)
    with IH have "map_option ((#) (take (length p) ?s)) (match_here pat (drop (length p) ?s)) \<noteq> None"
      by simp
    with ne len have "longest_first
           (\<lambda>n. map_option ((#) (take n ?s)) (match_here pat (drop n ?s)))
           (length (takeWhile cls ?s)) \<noteq> None"
      unfolding longest_first_None by (intro notI) (metis length_greater_0_conv)
    then show ?thesis
      by (simp add: Many1)
  qed
qed

lemma js_match_sound:
  "js_match pat s = Some ps \<Longrightarrow>
     list_all2 fits pat ps \<and> (\<exists>pre post. s = pre @ concat ps @ post)"
proof (induction s)
  case Nil
  with match_here_sound [of pat "[]" ps] show ?case
    by auto
next
  case (Cons x xs)
  show ?case
  proof (cases "match_here pat (x # xs)")
    case None
    with Cons obtain pre post where "list_all2 fits pat ps" "xs = pre @ concat ps @ post"
      by auto
    then show ?thesis
      by (auto intro: exI [of _ "x # pre"])
  next
    case (Some a)
    with Cons.prems have "match_here pat (x # xs) = Some ps"
      by simp
    from match_here_sound [OF this] show ?thesis
      by (auto intro: exI [of _ "[]"])
  qed
qed

lemma js_match_at_start: "match_here pat s \<noteq> None \<Longrightarrow> js_match pat s \<noteq> None"
  by (cases s) auto

lemma js_match_complete:
  "list_all2 fits pat ps \<Longrightarrow> js_match pat (pre @ concat ps @ post) \<noteq> None"
proof (induction pre)
  case Nil
  with match_here_complete [of pat ps post] show ?case
    by (simp add: js_match_at_start)
next
  case (Cons x pre)
  then show ?case
    by (auto split: option.splits)
qed

subsection \<open>The two patterns and the two shapes\<close>

lemma fits_paren_pattern:
  "list_all2 fits paren_pattern ps \<longleftrightarrow>
     (\<exists>f l c. ps = [''('', f, '':'', l, '':'', c, '')'']
        \<and> f \<noteq> [] \<and> CHR '')'' \<notin> set f \<and> digits l \<and> digits c)"
  by (auto simp: paren_pattern_def list_all2_Cons1 digits_def list_all_iff)

lemma fits_simple_pattern:
  "list_all2 fits simple_pattern ps \<longleftrightarrow>
     (\<exists>stem x l. ps = [stem, ''.'', ''j'', ''s'', x, '':'', l]
        \<and> stem \<noteq> [] \<and> list_all (\<lambda>c. \<not> is_space c) stem \<and> (x = ''x'' \<or> x = [])
        \<and> digits l)"
  by (auto simp: simple_pattern_def list_all2_Cons1 digits_def)

lemma paren_match:
  assumes "js_match paren_pattern text = Some m"
  shows "paren_shape text (capture m 1 2) (capture m 3 4) (capture m 5 6)"
proof -
  from js_match_sound [OF assms] obtain pre post f l c
    where m: "m = [''('', f, '':'', l, '':'', c, '')'']"
      and ok: "f \<noteq> []" "CHR '')'' \<notin> set f" "digits l" "digits c"
      and decomp: "text = pre @ concat m @ post"
    by (auto simp: fits_paren_pattern)
  have "text = pre @ ''('' @ f @ '':'' @ l @ '':'' @ c @ '')'' @ post"
    unfolding decomp m by simp
  with ok show ?thesis
    unfolding paren_shape_def by (auto simp: m capture_def)
qed

lemma paren_found:
  assumes "paren_shape text f l c"
  shows "js_match paren_pattern text \<noteq> None"
proof -
  from assms obtain pre post
    where decomp: "text = pre @ ''('' @ f @ '':'' @ l @ '':'' @ c @ '')'' @ post"
      and ok: "f \<noteq> []" "CHR '')'' \<notin> set f" "digits l" "digits c"
    by (auto simp: paren_shape_def)
  let ?ps = "[''('', f, '':'', l, '':'', c, '')'']"
  from ok have "list_all2 fits paren_pattern ?ps"
    by (simp add: fits_paren_pattern)
  from js_match_complete [OF this, of pre post] show ?thesis
    by (simp add: decomp)
qed

lemma simple_match:
  assumes "js_match simple_pattern text = Some m"
  shows "simple_shape text (capture m 0 5) (capture m 6 7)"
proof -
  from js_match_sound [OF assms] obtain pre post stem x l
    where m: "m = [stem, ''.'', ''j'', ''s'', x, '':'', l]"
      and ok: "stem \<noteq> []" "list_all (\<lambda>c. \<not> is_space c) stem" "x = ''x'' \<or> x = []" "digits l"
      and decomp: "text = pre @ concat m @ post"
    by (auto simp: fits_simple_pattern)
  have f: "capture m 0 5 = stem @ ''.js'' @ x" and l: "capture m 6 7 = l"
    by (simp_all add: m capture_def)
  have "text = pre @ (stem @ ''.js'' @ x) @ '':'' @ l @ post"
    unfolding decomp m by simp
  then have "\<exists>pre post. text = pre @ (stem @ ''.js'' @ x) @ '':'' @ l @ post"
    by blast
  moreover have "\<exists>s. s \<noteq> [] \<and> list_all (\<lambda>c. \<not> is_space c) s
      \<and> (stem @ ''.js'' @ x = s @ ''.js'' \<or> stem @ ''.js'' @ x = s @ ''.jsx'')"
    using ok by (intro exI [of _ stem]) auto
  ultimately show ?thesis
    unfolding simple_shape_def f l using ok(4) by blast
qed

lemma simple_found:
  assumes "simple_shape text f l"
  shows "js_match simple_pattern text \<noteq> None"
proof -
  from assms obtain pre post stem
    where decomp: "text = pre @ f @ '':'' @ l @ post"
      and stem: "stem \<noteq> []" "list_all (\<lambda>c. \<not> is_space c) stem"
      and f: "f = stem @ ''.js'' \<or> f = stem @ ''.jsx''"
      and l: "digits l"
    by (auto simp: simple_shape_def)
  from f obtain x where x: "x = ''x'' \<or> x = []" and fx: "f = stem @ ''.js'' @ x"
    by auto
  let ?ps = "[stem, ''.'', ''j'', ''s'', x, '':'', l]"
  from stem x l have "list_all2 fits simple_pattern ?ps"
    by (simp add: fits_simple_pattern)
  from js_match_complete [OF this, of pre post] show ?thesis
    by (simp add: decomp fx)
qed

text \<open>
  C6. The extraction is a function of the text alone, with two attempts in order. If the
  text holds a location of the shape \<open>(file:line:column)\<close>, the result is the file, the
  line and the column of such a location. Otherwise, if it holds one of the shape
  \<open>file.ext:line\<close> with the extension \<open>.js\<close> or \<open>.jsx\<close>, the result is the file and the
  line of such a location, and no column. Otherwise there is no result. Line and column
  are the numbers \<open>parseInt\<close> gives on the digits of the location.
\<close>

theorem parseErrorSource_two_attempts:
  "((\<exists>f l c. paren_shape text f l c) \<longrightarrow>
      (\<exists>f l c. paren_shape text f l c
         \<and> parseErrorSource text
             = Some \<lparr>file' = f, line = Some (parseInt l), column = Some (parseInt c)\<rparr>))
   \<and> (\<not> (\<exists>f l c. paren_shape text f l c) \<and> (\<exists>f l. simple_shape text f l) \<longrightarrow>
      (\<exists>f l. simple_shape text f l
         \<and> parseErrorSource text = Some \<lparr>file' = f, line = Some (parseInt l), column = None\<rparr>))
   \<and> (\<not> (\<exists>f l c. paren_shape text f l c) \<and> \<not> (\<exists>f l. simple_shape text f l) \<longrightarrow>
      parseErrorSource text = None)"
proof (intro conjI impI)
  assume "\<exists>f l c. paren_shape text f l c"
  then obtain m where m: "js_match paren_pattern text = Some m"
    using paren_found by blast
  from paren_match [OF m] show "\<exists>f l c. paren_shape text f l c
         \<and> parseErrorSource text
             = Some \<lparr>file' = f, line = Some (parseInt l), column = Some (parseInt c)\<rparr>"
    by (auto simp: parseErrorSource_def m)
next
  assume "\<not> (\<exists>f l c. paren_shape text f l c) \<and> (\<exists>f l. simple_shape text f l)"
  then have none: "js_match paren_pattern text = None"
    and "\<exists>f l. simple_shape text f l"
    using paren_match by (cases "js_match paren_pattern text"; blast)+
  then obtain m where m: "js_match simple_pattern text = Some m"
    using simple_found by blast
  from simple_match [OF m] show "\<exists>f l. simple_shape text f l
         \<and> parseErrorSource text = Some \<lparr>file' = f, line = Some (parseInt l), column = None\<rparr>"
    by (auto simp: parseErrorSource_def none m)
next
  assume "\<not> (\<exists>f l c. paren_shape text f l c) \<and> \<not> (\<exists>f l. simple_shape text f l)"
  then have "js_match paren_pattern text = None" and "js_match simple_pattern text = None"
    using paren_match simple_match
    by (cases "js_match paren_pattern text"; cases "js_match simple_pattern text"; blast)+
  then show "parseErrorSource text = None"
    by (simp add: parseErrorSource_def)
qed

lemma bit_length_0: "bit_length 0 = 0"
  by (simp add: bit_length.simps)

lemma bit_length_pos: "0 < n \<Longrightarrow> bit_length n = Suc (bit_length (n div 2))"
  by (subst bit_length.simps) simp

theorem parseErrorSource_two_attempts_witness:
  "paren_shape ''at Component (App.jsx:42:15)'' ''App.jsx'' ''42'' ''15''
   \<and> (\<exists>f l c. paren_shape ''at Component (App.jsx:42:15)'' f l c
         \<and> parseErrorSource ''at Component (App.jsx:42:15)''
             = Some \<lparr>file' = f, line = Some (parseInt l), column = Some (parseInt c)\<rparr>)
   \<and> parseErrorSource ''at Component (App.jsx:42:15)''
       = Some \<lparr>file' = ''App.jsx'', line = Some (Number 42), column = Some (Number 15)\<rparr>
   \<and> parseErrorSource ''at f (x.js:9007199254740993:1)''
       = Some \<lparr>file' = ''x.js'', line = Some (Number 9007199254740992),
               column = Some (Number 1)\<rparr>
   \<and> \<not> (\<exists>f l c. paren_shape ''Error in main.js:7'' f l c)
   \<and> simple_shape ''Error in main.js:7'' ''main.js'' ''7''
   \<and> (\<exists>f l. simple_shape ''Error in main.js:7'' f l
         \<and> parseErrorSource ''Error in main.js:7''
             = Some \<lparr>file' = f, line = Some (parseInt l), column = None\<rparr>)
   \<and> parseErrorSource ''Error in main.js:7''
       = Some \<lparr>file' = ''main.js'', line = Some (Number 7), column = None\<rparr>
   \<and> \<not> (\<exists>f l c. paren_shape ''boom'' f l c) \<and> \<not> (\<exists>f l. simple_shape ''boom'' f l)
   \<and> parseErrorSource ''boom'' = None"
proof -
  let ?t1 = "''at Component (App.jsx:42:15)''" and ?t2 = "''Error in main.js:7''"
  have "?t1 = ''at Component '' @ ''('' @ ''App.jsx'' @ '':'' @ ''42'' @ '':'' @ ''15'' @ '')'' @ []"
    by simp
  then have "\<exists>pre post. ?t1 = pre @ ''('' @ ''App.jsx'' @ '':'' @ ''42'' @ '':'' @ ''15'' @ '')'' @ post"
    by blast
  then have p1: "paren_shape ?t1 ''App.jsx'' ''42'' ''15''"
    unfolding paren_shape_def by (simp add: digits_def is_digit_def)
  then have "\<exists>f l c. paren_shape ?t1 f l c"
    by blast
  with parseErrorSource_two_attempts [of ?t1]
  have e1: "\<exists>f l c. paren_shape ?t1 f l c
         \<and> parseErrorSource ?t1
             = Some \<lparr>file' = f, line = Some (parseInt l), column = Some (parseInt c)\<rparr>"
    by blast
  have v1: "parseErrorSource ?t1
      = Some \<lparr>file' = ''App.jsx'', line = Some (Number 42), column = Some (Number 15)\<rparr>"
    by code_simp
  have "js_match paren_pattern ''at f (x.js:9007199254740993:1)''
      = Some [''('', ''x.js'', '':'', ''9007199254740993'', '':'', ''1'', '')'']"
    by code_simp
  moreover have "parseInt ''9007199254740993'' = Number 9007199254740992"
    by (simp add: parseInt_def decimal_value_def to_double_def Let_def bit_length_0 bit_length_pos)
  moreover have "parseInt ''1'' = Number 1"
    by code_simp
  ultimately have big: "parseErrorSource ''at f (x.js:9007199254740993:1)''
       = Some \<lparr>file' = ''x.js'', line = Some (Number 9007199254740992),
               column = Some (Number 1)\<rparr>"
    by (simp add: parseErrorSource_def capture_def)
  have "js_match paren_pattern ?t2 = None"
    by code_simp
  then have n2: "\<not> (\<exists>f l c. paren_shape ?t2 f l c)"
    using paren_found by blast
  have "?t2 = ''Error in '' @ ''main.js'' @ '':'' @ ''7'' @ []"
    by simp
  then have "\<exists>pre post. ?t2 = pre @ ''main.js'' @ '':'' @ ''7'' @ post"
    by blast
  moreover have "\<exists>stem. stem \<noteq> [] \<and> list_all (\<lambda>c. \<not> is_space c) stem
            \<and> (''main.js'' = stem @ ''.js'' \<or> ''main.js'' = stem @ ''.jsx'')"
    by (intro exI [of _ "''main''"]) (simp add: is_space_def)
  ultimately have s2: "simple_shape ?t2 ''main.js'' ''7''"
    unfolding simple_shape_def by (simp add: digits_def is_digit_def)
  then have "\<exists>f l. simple_shape ?t2 f l"
    by blast
  with parseErrorSource_two_attempts [of ?t2] n2
  have e2: "\<exists>f l. simple_shape ?t2 f l
         \<and> parseErrorSource ?t2 = Some \<lparr>file' = f, line = Some (parseInt l), column = None\<rparr>"
    by blast
  have v2: "parseErrorSource ?t2
      = Some \<lparr>file' = ''main.js'', line = Some (Number 7), column = None\<rparr>"
    by code_simp
  have "js_match paren_pattern ''boom'' = None"
    by code_simp
  then have n3: "\<not> (\<exists>f l c. paren_shape ''boom'' f l c)"
    using paren_found by blast
  have "js_match simple_pattern ''boom'' = None"
    by code_simp
  then have m3: "\<not> (\<exists>f l. simple_shape ''boom'' f l)"
    using simple_found by blast
  from parseErrorSource_two_attempts [of "''boom''"] n3 m3
  have v3: "parseErrorSource ''boom'' = None"
    by blast
  from p1 e1 v1 big n2 s2 e2 v2 n3 m3 v3 show ?thesis
    by (intro conjI)
qed

section \<open>Properties of the Monitor\<close>

subsection \<open>What the callbacks append\<close>

lemma listener_segregated: "segregated c \<Longrightarrow> segregated (listener ets sg c)"
  by (cases c; cases "event sg")
     (auto simp: segregated_def error_entry_def warning_entry_def split: if_splits)

lemma dispatch_segregated: "segregated c \<Longrightarrow> segregated (dispatch ets sgs c)"
proof (induction sgs arbitrary: c)
  case Nil
  then show ?case by (simp add: dispatch_def)
next
  case (Cons sg sgs)
  have "dispatch ets (sg # sgs) c = dispatch ets sgs (listener ets sg c)"
    by (simp add: dispatch_def)
  with Cons.IH [OF listener_segregated [OF Cons.prems]] show ?case by simp
qed

lemma collected_segregated: "segregated (collected config run)"
proof -
  let ?ets = "cfg_errorTypes config"
  let ?c2 = "dispatch ?ets (settle_signals run) (dispatch ?ets (load_signals run) ([], []))"
  have "segregated ([], [])"
    by (simp add: segregated_def)
  then have c2: "segregated ?c2"
    by (intro dispatch_segregated)
  then have c3: "segregated (fst ?c2, snd ?c2 @ [empty_root_warning run])"
    by (simp add: segregated_def warning_entry_def empty_root_warning_def)
  show ?thesis
    unfolding collected_def Let_def
    using c2 c3 by (auto intro: dispatch_segregated)
qed

lemma error_entry_severity: "error_entry e \<Longrightarrow> severity e = Critical \<or> severity e = Error"
  by (auto simp: error_entry_def)

lemma warning_entry_severity: "warning_entry e \<Longrightarrow> severity e = Warning"
  by (auto simp: warning_entry_def)

lemma error_entry_table: "error_entry e \<Longrightarrow> severity e = spec_severity (type' e)"
  by (auto simp: error_entry_def)

lemma warning_entry_table: "warning_entry e \<Longrightarrow> severity e = spec_severity (type' e)"
  by (auto simp: warning_entry_def)

subsection \<open>The two results\<close>

lemma returned_cases:
  assumes "returned (monitorSandbox config run) = Inr r"
  shows "(\<exists>navError. goto_fault run = Some navError \<and> r = navigation_failure_result config run navError)
       \<or> (goto_fault run = None \<and> r = success_result config run (collected config run))"
  using assms by (auto simp: monitorSandbox_def split: option.splits)

lemma category_partition:
  "length (filter (\<lambda>e. startsWith (type_name (type' e)) ''console-'') es)
   + length (filter (\<lambda>e. startsWith (type_name (type' e)) ''network-'') es)
   + length (filter (\<lambda>e. type_name (type' e) = ''exception'') es) = length es"
proof (induction es)
  case Nil
  then show ?case by simp
next
  case (Cons e es)
  then show ?case by (cases "type' e") (simp_all add: startsWith_def)
qed

lemma success_result_fields:
  "success (success_result config run c) = True"
  "errors (success_result config run c) = fst c"
  "warnings (success_result config run c) = snd c"
  "hasErrors (success_result config run c)
     = (\<exists>e\<in>set (fst c). severity e = Critical \<or> severity e = Error)"
  "totalErrors (summary (success_result config run c)) = length (fst c) + length (snd c)"
  "consoleErrors (summary (success_result config run c))
     = length (filter (\<lambda>e. startsWith (type_name (type' e)) ''console-'') (fst c))"
  "networkErrors (summary (success_result config run c))
     = length (filter (\<lambda>e. startsWith (type_name (type' e)) ''network-'') (fst c))"
  "exceptions (summary (success_result config run c))
     = length (filter (\<lambda>e. type_name (type' e) = ''exception'') (fst c))"
  by (auto simp: success_result_def Let_def filter_empty_conv)

lemma navigation_failure_result_fields:
  "success (navigation_failure_result config run m) = False"
  "hasErrors (navigation_failure_result config run m) = True"
  "errors (navigation_failure_result config run m) =
     [\<lparr>id' = fresh_id run, type' = NetworkOther, severity = Critical,
       message = ''Failed to navigate to sandbox: '' @ m, stack = None,
       url = Some (cfg_sandboxUrl config), statusCode = None,
       timestamp = fresh_time run, source = None\<rparr>]"
  "warnings (navigation_failure_result config run m) = []"
  "summary (navigation_failure_result config run m)
     = \<lparr>totalErrors = 1, consoleErrors = 0, networkErrors = 1, exceptions = 0\<rparr>"
  by (simp_all add: navigation_failure_result_def)

lemma example_returns:
  "returned (monitorSandbox example_config loaded_run) = Inr loaded_result"
  "returned (monitorSandbox example_config warnings_only_run) = Inr warnings_only_result"
  "returned (monitorSandbox example_config unreachable_run) = Inr unreachable_result"
  by (simp_all add: monitorSandbox_def loaded_run_def warnings_only_run_def unreachable_run_def
        loaded_result_def warnings_only_result_def unreachable_result_def)

subsection \<open>Claims about the session result\<close>

text \<open>
  C1, as stated: the severity of every error the Monitor creates, the synthesized
  navigation-failure error included, is the one the table gives for its type. The session
  whose navigation fails returns an error of type \<open>network-other\<close> with severity
  \<open>critical\<close>, where the table gives \<open>warning\<close>.
\<close>

theorem navigation_error_off_table:
  "returned (monitorSandbox example_config unreachable_run) = Inr unreachable_result
   \<and> map type' (errors unreachable_result) = [NetworkOther]
   \<and> map severity (errors unreachable_result) = [Critical]
   \<and> map (spec_severity \<circ> type') (errors unreachable_result) = [Warning]
   \<and> map severity (errors unreachable_result)
       \<noteq> map (spec_severity \<circ> type') (errors unreachable_result)"
  by (simp add: example_returns unreachable_result_def navigation_failure_result_def)

text \<open>
  C1, amended: every entry the listener callbacks append, and the empty-root advisory,
  has the severity the table gives for its type, so every entry of a result with
  \<open>success\<close> true has it; the one error of a result with \<open>success\<close> false, the synthesized
  navigation-failure error, has type \<open>network-other\<close> and severity \<open>critical\<close>.
\<close>

theorem severity_by_table_except_navigation:
  "(\<forall>e \<in> set (fst (dispatch ets sgs ([], []))) \<union> set (snd (dispatch ets sgs ([], []))).
       severity e = spec_severity (type' e))
   \<and> severity (empty_root_warning run) = spec_severity (type' (empty_root_warning run))
   \<and> (returned (monitorSandbox config run) = Inr r \<longrightarrow>
        (success r \<longrightarrow>
           (\<forall>e \<in> set (errors r) \<union> set (warnings r). severity e = spec_severity (type' e)))
        \<and> (\<not> success r \<longrightarrow>
             (\<exists>e. errors r = [e] \<and> type' e = NetworkOther \<and> severity e = Critical)
             \<and> warnings r = []))"
proof (intro conjI impI)
  have "segregated (dispatch ets sgs ([], []))"
    by (intro dispatch_segregated) (simp add: segregated_def)
  then show "\<forall>e \<in> set (fst (dispatch ets sgs ([], []))) \<union> set (snd (dispatch ets sgs ([], []))).
       severity e = spec_severity (type' e)"
    by (auto simp: segregated_def list_all_iff error_entry_table warning_entry_table)
next
  show "severity (empty_root_warning run) = spec_severity (type' (empty_root_warning run))"
    by (simp add: empty_root_warning_def)
next
  assume ret: "returned (monitorSandbox config run) = Inr r" and ok: "success r"
  from returned_cases [OF ret] ok
  have r: "r = success_result config run (collected config run)"
    by (auto simp: navigation_failure_result_fields)
  show "\<forall>e \<in> set (errors r) \<union> set (warnings r). severity e = spec_severity (type' e)"
    using collected_segregated [of config run] unfolding r
    by (auto simp: success_result_fields segregated_def list_all_iff
          error_entry_table warning_entry_table)
next
  assume ret: "returned (monitorSandbox config run) = Inr r" and ko: "\<not> success r"
  from returned_cases [OF ret] ko
  obtain m where r: "r = navigation_failure_result config run m"
    by (auto simp: success_result_fields)
  show "\<exists>e. errors r = [e] \<and> type' e = NetworkOther \<and> severity e = Critical"
    unfolding r by (simp add: navigation_failure_result_fields)
  show "warnings r = []"
    unfolding r by (simp add: navigation_failure_result_fields)
qed

theorem severity_by_table_except_navigation_witness:
  "returned (monitorSandbox example_config loaded_run) = Inr loaded_result
   \<and> success loaded_result
   \<and> map type' (errors loaded_result) = [Network404, ConsoleError, Exception, Network500]
   \<and> map severity (errors loaded_result) = [Error, Error, Critical, Critical]
   \<and> list_all (\<lambda>e. severity e = spec_severity (type' e))
        (errors loaded_result @ warnings loaded_result)"
proof -
  have ok: "success loaded_result"
    by (simp add: loaded_result_def success_result_fields)
  have ts: "map type' (errors loaded_result) = [Network404, ConsoleError, Exception, Network500]"
    by code_simp
  have ss: "map severity (errors loaded_result) = [Error, Error, Critical, Critical]"
    by code_simp
  from severity_by_table_except_navigation
    [where config = example_config and run = loaded_run and r = loaded_result]
    example_returns(1) ok
  have "\<forall>e \<in> set (errors loaded_result) \<union> set (warnings loaded_result).
         severity e = spec_severity (type' e)"
    by blast
  then have "list_all (\<lambda>e. severity e = spec_severity (type' e))
        (errors loaded_result @ warnings loaded_result)"
    by (simp add: list_all_iff)
  with ok ts ss example_returns(1) show ?thesis by blast
qed

text \<open>
  C2. For every session that returns a result, \<open>hasErrors\<close> is true if and only if
  \<open>errors\<close> holds at least one item of severity \<open>critical\<close> or \<open>error\<close>; a result whose
  \<open>errors\<close> is empty, as of a session that collected only warnings, has \<open>hasErrors\<close> false.
\<close>

theorem hasErrors_iff_critical_or_error:
  assumes "returned (monitorSandbox config run) = Inr r"
  shows "(hasErrors r \<longleftrightarrow> (\<exists>e \<in> set (errors r). severity e = Critical \<or> severity e = Error))
         \<and> (errors r = [] \<longrightarrow> \<not> hasErrors r)"
  using returned_cases [OF assms]
  by (auto simp: success_result_fields navigation_failure_result_fields)

theorem hasErrors_iff_critical_or_error_witness:
  "returned (monitorSandbox example_config warnings_only_run) = Inr warnings_only_result
   \<and> errors warnings_only_result = []
   \<and> map severity (warnings warnings_only_result) = [Warning, Warning]
   \<and> \<not> hasErrors warnings_only_result"
proof -
  have es: "errors warnings_only_result = []"
    by code_simp
  have ws: "map severity (warnings warnings_only_result) = [Warning, Warning]"
    by code_simp
  from hasErrors_iff_critical_or_error [OF example_returns(2)] es ws example_returns(2)
  show ?thesis by blast
qed

text \<open>
  C4, as stated: every session in which the navigation fails closes the browser and
  returns the failure result. In the session below the navigation times out and
  \<open>browser.close()\<close> throws in the \<open>catch\<close> of the navigation: the outer \<open>catch\<close> closes
  the browser once more and throws that error, and no result is returned.
\<close>

theorem navigation_failure_close_throws:
  "launch_fault unreachable_close_fails_run = None
   \<and> context_fault unreachable_close_fails_run = None
   \<and> page_fault unreachable_close_fails_run = None
   \<and> goto_fault unreachable_close_fails_run = Some ''Timeout 500ms exceeded''
   \<and> monitorSandbox example_config unreachable_close_fails_run =
       \<lparr>actions = [Launch, NewContext, NewPage, SetupErrorListeners, Goto, Close, Close],
        returned = Inl ''Target page, context or browser has been closed''\<rparr>"
  by (simp add: monitorSandbox_def unreachable_close_fails_run_def unreachable_run_def)

text \<open>
  C4, amended: in every session in which the navigation fails (the browser, the context
  and the page were opened, and \<open>page.goto\<close> throws, a timeout included) and the browser
  then closes without an error, the Monitor closes the browser right after the navigation,
  with no settle wait and no content check, and returns a result with \<open>success\<close> false,
  \<open>hasErrors\<close> true, exactly one error, of type \<open>network-other\<close> and severity
  \<open>critical\<close>, whose message describes the navigation failure, no warnings, and the
  summary \<open>{totalErrors: 1, consoleErrors: 0, networkErrors: 1, exceptions: 0}\<close>. When
  closing the browser throws, the Monitor closes it a second time and throws that error,
  still with no settle wait and no content check, and returns no result.
\<close>

theorem navigation_failure_session:
  assumes "launch_fault run = None" and "context_fault run = None" and "page_fault run = None"
    and "goto_fault run = Some navError"
  shows "(close_fault run = None \<longrightarrow>
          (\<exists>r e. monitorSandbox config run =
             \<lparr>actions = [Launch, NewContext, NewPage, SetupErrorListeners, Goto, Close],
              returned = Inr r\<rparr>
         \<and> success r = False \<and> hasErrors r = True
         \<and> errors r = [e] \<and> type' e = NetworkOther \<and> severity e = Critical
         \<and> message e = ''Failed to navigate to sandbox: '' @ navError
         \<and> url e = Some (cfg_sandboxUrl config)
         \<and> warnings r = []
         \<and> summary r = \<lparr>totalErrors = 1, consoleErrors = 0, networkErrors = 1, exceptions = 0\<rparr>))
       \<and> (\<forall>closeError. close_fault run = Some closeError \<longrightarrow>
            monitorSandbox config run =
              \<lparr>actions = [Launch, NewContext, NewPage, SetupErrorListeners, Goto, Close, Close],
               returned = Inl closeError\<rparr>)"
  using assms by (simp add: monitorSandbox_def navigation_failure_result_def)

theorem navigation_failure_session_witness:
  "launch_fault unreachable_run = None \<and> context_fault unreachable_run = None
   \<and> page_fault unreachable_run = None
   \<and> goto_fault unreachable_run = Some ''Timeout 500ms exceeded''
   \<and> close_fault unreachable_run = None
   \<and> (\<exists>r e. monitorSandbox example_config unreachable_run =
             \<lparr>actions = [Launch, NewContext, NewPage, SetupErrorListeners, Goto, Close],
              returned = Inr r\<rparr>
         \<and> success r = False \<and> hasErrors r = True
         \<and> errors r = [e] \<and> type' e = NetworkOther \<and> severity e = Critical
         \<and> message e = ''Failed to navigate to sandbox: '' @ ''Timeout 500ms exceeded''
         \<and> url e = Some (cfg_sandboxUrl example_config)
         \<and> warnings r = []
         \<and> summary r = \<lparr>totalErrors = 1, consoleErrors = 0, networkErrors = 1, exceptions = 0\<rparr>)"
proof -
  have h: "launch_fault unreachable_run = None" "context_fault unreachable_run = None"
    "page_fault unreachable_run = None"
    "goto_fault unreachable_run = Some ''Timeout 500ms exceeded''"
    by (simp_all add: unreachable_run_def)
  have c: "close_fault unreachable_run = None"
    by (simp add: unreachable_run_def)
  from navigation_failure_session [OF h, of example_config] h c show ?thesis
    by blast
qed

text \<open>
  C5. For every session that returns a result, on the navigation-failure path and on the
  success path alike, \<open>summary.totalErrors\<close> is the length of \<open>errors\<close> plus the length
  of \<open>warnings\<close>.
\<close>

theorem total_is_errors_plus_warnings:
  assumes "returned (monitorSandbox config run) = Inr r"
  shows "totalErrors (summary r) = length (errors r) + length (warnings r)"
  using returned_cases [OF assms]
  by (auto simp: success_result_fields navigation_failure_result_fields)

theorem total_is_errors_plus_warnings_witness:
  "returned (monitorSandbox example_config loaded_run) = Inr loaded_result
   \<and> totalErrors (summary loaded_result) = 7
   \<and> length (errors loaded_result) = 4
   \<and> length (warnings loaded_result) = 3"
proof -
  have es: "length (errors loaded_result) = 4"
    by code_simp
  have ws: "length (warnings loaded_result) = 3"
    by code_simp
  from total_is_errors_plus_warnings [OF example_returns(1)] es ws example_returns(1)
  show ?thesis by simp
qed

text \<open>
  C9. Every element the session appends to \<open>errors\<close> has severity \<open>critical\<close> or \<open>error\<close>,
  and every element it appends to \<open>warnings\<close> has severity \<open>warning\<close>: this holds of the
  two collections after any sequence of signals, of the collections when the browser has
  closed, and of every returned result, for which \<open>hasErrors\<close> is therefore equivalent to
  \<open>errors\<close> being non-empty.
\<close>

theorem severity_segregation:
  "(\<forall>e \<in> set (fst (dispatch ets sgs ([], []))). severity e = Critical \<or> severity e = Error)
   \<and> (\<forall>e \<in> set (snd (dispatch ets sgs ([], []))). severity e = Warning)
   \<and> (\<forall>e \<in> set (fst (collected config run)). severity e = Critical \<or> severity e = Error)
   \<and> (\<forall>e \<in> set (snd (collected config run)). severity e = Warning)
   \<and> (returned (monitorSandbox config run) = Inr r \<longrightarrow>
        (\<forall>e \<in> set (errors r). severity e = Critical \<or> severity e = Error)
        \<and> (\<forall>e \<in> set (warnings r). severity e = Warning)
        \<and> (hasErrors r \<longleftrightarrow> errors r \<noteq> []))"
proof -
  have d: "segregated (dispatch ets sgs ([], []))"
    by (intro dispatch_segregated) (simp add: segregated_def)
  have c: "segregated (collected config run)"
    by (rule collected_segregated)
  have "(\<forall>e \<in> set (errors r). severity e = Critical \<or> severity e = Error)
        \<and> (\<forall>e \<in> set (warnings r). severity e = Warning)
        \<and> (hasErrors r \<longleftrightarrow> errors r \<noteq> [])"
    if ret: "returned (monitorSandbox config run) = Inr r"
    using returned_cases [OF ret]
  proof (elim disjE exE conjE)
    fix m assume "r = navigation_failure_result config run m"
    then show ?thesis by (simp add: navigation_failure_result_fields)
  next
    assume r: "r = success_result config run (collected config run)"
    have sev: "\<forall>e \<in> set (fst (collected config run)). severity e = Critical \<or> severity e = Error"
      using c by (auto simp: segregated_def list_all_iff dest: error_entry_severity)
    then have "(\<exists>e\<in>set (fst (collected config run)). severity e = Critical \<or> severity e = Error)
                 \<longleftrightarrow> fst (collected config run) \<noteq> []"
      by (cases "fst (collected config run)") auto
    with sev c show ?thesis
      unfolding r
      by (auto simp: success_result_fields segregated_def list_all_iff dest: warning_entry_severity)
  qed
  with d c show ?thesis
    by (auto simp: segregated_def list_all_iff dest: error_entry_severity warning_entry_severity)
qed

theorem severity_segregation_witness:
  "returned (monitorSandbox example_config loaded_run) = Inr loaded_result
   \<and> length (errors loaded_result) = 4 \<and> length (warnings loaded_result) = 3
   \<and> list_all (\<lambda>e. severity e = Critical \<or> severity e = Error) (errors loaded_result)
   \<and> list_all (\<lambda>e. severity e = Warning) (warnings loaded_result)
   \<and> hasErrors loaded_result"
proof -
  have es: "length (errors loaded_result) = 4"
    by code_simp
  have ws: "length (warnings loaded_result) = 3"
    by code_simp
  from severity_segregation [where config = example_config and run = loaded_run and r = loaded_result]
    example_returns(1)
  have seg: "(\<forall>e \<in> set (errors loaded_result). severity e = Critical \<or> severity e = Error)
        \<and> (\<forall>e \<in> set (warnings loaded_result). severity e = Warning)
        \<and> (hasErrors loaded_result \<longleftrightarrow> errors loaded_result \<noteq> [])"
    by blast
  from es have "errors loaded_result \<noteq> []"
    by auto
  with seg es ws example_returns(1) show ?thesis
    by (simp add: list_all_iff)
qed

text \<open>
  C10. The per-category counts of the summary are taken from \<open>errors\<close> alone: for every
  returned result, and so for every successful session, \<open>consoleErrors + networkErrors +
  exceptions\<close> is the length of \<open>errors\<close>, and \<open>totalErrors\<close> exceeds that sum by the
  length of \<open>warnings\<close>, which no per-category count includes.
\<close>

theorem categories_count_errors_only:
  assumes "returned (monitorSandbox config run) = Inr r"
  shows "consoleErrors (summary r) + networkErrors (summary r) + exceptions (summary r)
           = length (errors r)
         \<and> totalErrors (summary r)
           = consoleErrors (summary r) + networkErrors (summary r) + exceptions (summary r)
             + length (warnings r)"
  using returned_cases [OF assms] category_partition [of "fst (collected config run)"]
  by (auto simp: success_result_fields navigation_failure_result_fields)

theorem categories_count_errors_only_witness:
  "returned (monitorSandbox example_config loaded_run) = Inr loaded_result
   \<and> length (errors loaded_result) = 4 \<and> length (warnings loaded_result) = 3
   \<and> consoleErrors (summary loaded_result) + networkErrors (summary loaded_result)
       + exceptions (summary loaded_result) = 4
   \<and> totalErrors (summary loaded_result) = 7"
proof -
  have es: "length (errors loaded_result) = 4"
    by code_simp
  have ws: "length (warnings loaded_result) = 3"
    by code_simp
  from categories_count_errors_only [OF example_returns(1)] es ws example_returns(1)
  show ?thesis by simp
qed

text \<open>
  C3, at a failing input: with the allow-list \<open>[console-error]\<close>, a 404 response, a 503
  response, a console warning and an uncaught exception are dropped, as their types are
  not in the list; a response with status 403 and a failed request are both classified
  \<open>network-other\<close>, which the list does not hold either, and both are appended to
  \<open>warnings\<close>.
\<close>

theorem allow_list_not_applied_to_network_other:
  "shouldCapture console_only (type_name NetworkOther) = False
   \<and> dispatch console_only
         [not_found_response, server_error_response, console_warning, uncaught_exception]
         ([], []) = ([], [])
   \<and> fst (dispatch console_only [forbidden_response, failed_request] ([], [])) = []
   \<and> map type' (snd (dispatch console_only [forbidden_response, failed_request] ([], [])))
       = [NetworkOther, NetworkOther]
   \<and> map message (snd (dispatch console_only [forbidden_response, failed_request] ([], [])))
       = [''HTTP 403: http://x/private'', ''Request failed: net::ERR_ABORTED - http://x/poll'']"
  by code_simp

section \<open>Properties of the Fixer\<close>

subsection \<open>The working file set\<close>

lemma set_add_set: "set (set_add x xs) = insert x (set xs)"
  by (auto simp: set_add_def)

lemma add_error_file_keeps: "y \<in> set relevant \<Longrightarrow> y \<in> set (add_error_file e relevant)"
  by (simp add: add_error_file_def set_add_set split: option.splits)

lemma fold_add_error_file_keeps:
  "y \<in> set relevant \<Longrightarrow> y \<in> set (fold add_error_file errs relevant)"
  by (induction errs arbitrary: relevant) (simp_all add: add_error_file_keeps)

text \<open>
  C8. For every invocation of the Fixer, \<open>package.json\<close>, \<open>index.html\<close>,
  \<open>src/index.css\<close> and \<open>src/main.jsx\<close> are members of the working file set, whatever the
  errors and the focus files are; with no focus file and no error they are the whole set.
\<close>

theorem always_relevant_files:
  "''package.json'' \<in> set (relevantFiles errs focusFiles)
   \<and> ''index.html'' \<in> set (relevantFiles errs focusFiles)
   \<and> ''src/index.css'' \<in> set (relevantFiles errs focusFiles)
   \<and> ''src/main.jsx'' \<in> set (relevantFiles errs focusFiles)
   \<and> relevantFiles [] [] = [''package.json'', ''index.html'', ''src/index.css'', ''src/main.jsx'']"
proof -
  have "relevantFiles [] [] = [''package.json'', ''index.html'', ''src/index.css'', ''src/main.jsx'']"
    by (simp add: relevantFiles_def new_Set_def set_add_def)
  then show ?thesis
    unfolding relevantFiles_def
    by (auto intro!: fold_add_error_file_keeps simp: set_add_set)
qed

subsection \<open>Normalization of a source path\<close>

lemma normalizePath_shape:
  "startsWith (normalizePath p) ''src/''
   \<or> \<not> (endsWith (normalizePath p) ''.jsx'' \<or> endsWith (normalizePath p) ''.tsx'')"
  by (simp add: normalizePath_def Let_def startsWith_def)

lemma normalizePath_fixed:
  assumes "\<not> startsWith q ''/''" and "\<not> startsWith q ''./''"
    and "startsWith q ''src/'' \<or> \<not> (endsWith q ''.jsx'' \<or> endsWith q ''.tsx'')"
  shows "normalizePath q = q"
  using assms by (auto simp: normalizePath_def Let_def)

lemma startsWith_slash: "startsWith q ''/'' \<longleftrightarrow> (\<exists>t. q = CHR ''/'' # t)"
  by (cases q) (auto simp: startsWith_def)

lemma startsWith_dot_slash: "startsWith q ''./'' \<longleftrightarrow> (\<exists>t. q = CHR ''.'' # CHR ''/'' # t)"
proof (cases q)
  case Nil
  then show ?thesis by (simp add: startsWith_def)
next
  case (Cons a t)
  then show ?thesis by (cases t) (auto simp: startsWith_def)
qed

lemma normalizePath_moves:
  assumes "startsWith q ''/'' \<or> startsWith q ''./''"
  shows "normalizePath q \<noteq> q"
proof -
  have "length (normalizePath q) < length q \<or> hd (normalizePath q) = CHR ''s''"
    using assms
  proof
    assume "startsWith q ''/''"
    then obtain t where "q = CHR ''/'' # t"
      by (auto simp: startsWith_slash)
    then show ?thesis
      by (simp add: normalizePath_def Let_def startsWith_slash less_Suc_eq_le)
  next
    assume "startsWith q ''./''"
    then obtain t where "q = CHR ''.'' # CHR ''/'' # t"
      by (auto simp: startsWith_dot_slash)
    then show ?thesis
      by (simp add: normalizePath_def Let_def startsWith_slash startsWith_dot_slash)
  qed
  moreover have "hd q \<noteq> CHR ''s''"
    using assms by (auto simp: startsWith_slash startsWith_dot_slash)
  ultimately show ?thesis by auto
qed

text \<open>
  C7, as stated: normalizing a normalized path gives the same path, for every input. The
  path \<open>//a\<close> loses one slash each time.
\<close>

theorem normalization_not_idempotent:
  "normalizePath ''//a'' = ''/a''
   \<and> normalizePath (normalizePath ''//a'') = ''a''
   \<and> normalizePath (normalizePath ''//a'') \<noteq> normalizePath ''//a''"
  by (simp add: normalizePath_def startsWith_def endsWith_def)

text \<open>
  C7, amended: normalizing a normalized path gives the same path exactly when the
  normalized path does not itself begin with \<open>/\<close> or \<open>./\<close>. (It begins so only when the
  input, after one leading \<open>/\<close> and then one leading \<open>./\<close> are stripped, still begins with
  \<open>/\<close> or \<open>./\<close> and gets no \<open>src/\<close> prefix.)
\<close>

theorem normalization_idempotent_iff:
  "normalizePath (normalizePath p) = normalizePath p
   \<longleftrightarrow> \<not> startsWith (normalizePath p) ''/'' \<and> \<not> startsWith (normalizePath p) ''./''"
  using normalizePath_moves [of "normalizePath p"]
    normalizePath_fixed [of "normalizePath p"] normalizePath_shape [of p]
  by blast

theorem normalization_idempotent_iff_witness:
  "normalizePath ''/App.jsx'' = ''src/App.jsx''
   \<and> \<not> startsWith ''src/App.jsx'' ''/'' \<and> \<not> startsWith ''src/App.jsx'' ''./''
   \<and> normalizePath ''src/App.jsx'' = ''src/App.jsx''"
proof -
  have n: "normalizePath ''/App.jsx'' = ''src/App.jsx''"
    by (simp add: normalizePath_def startsWith_def endsWith_def)
  have s: "\<not> startsWith ''src/App.jsx'' ''/''" "\<not> startsWith ''src/App.jsx'' ''./''"
    by (simp_all add: startsWith_def)
  from normalization_idempotent_iff [of "''/App.jsx''"] n s show ?thesis
    by simp
qed

end
